theory Spec2Isabelle
  imports
    Complex_Main
    "HOL-Library.Multiset"
    "HOL-Library.Sublist"
    "HOL-Library.List_Lexorder"
    "HOL-Library.Word"
begin

section \<open>Values of the host language\<close>

text \<open>
  The component \<^verbatim>\<open>TeacherRankingSection.tsx\<close> only compares numbers, it never
  does arithmetic on them. A number is therefore modelled by its value: a finite double is
  the real it denotes, and the three non-finite doubles are constructors of their own.
  The two zeros of the host language compare equal and are both falsy; they are the one
  value \<open>Fin 0\<close> here.
\<close>

datatype jsnum = Fin real | PosInf | NegInf | NaN

text \<open>The relational operators on numbers: every comparison with \<open>NaN\<close> is false.\<close>

fun js_lt :: "jsnum \<Rightarrow> jsnum \<Rightarrow> bool" where
  "js_lt NaN b = False"
| "js_lt a NaN = False"
| "js_lt (Fin x) (Fin y) = (x < y)"
| "js_lt (Fin x) PosInf = True"
| "js_lt (Fin x) NegInf = False"
| "js_lt PosInf b = False"
| "js_lt NegInf NegInf = False"
| "js_lt NegInf b = True"

definition js_gt :: "jsnum \<Rightarrow> jsnum \<Rightarrow> bool" where
  "js_gt a b = js_lt b a"

definition js_le :: "jsnum \<Rightarrow> jsnum \<Rightarrow> bool" where
  "js_le a b = (a \<noteq> NaN \<and> b \<noteq> NaN \<and> \<not> js_lt b a)"

definition js_ge :: "jsnum \<Rightarrow> jsnum \<Rightarrow> bool" where
  "js_ge a b = (a \<noteq> NaN \<and> b \<noteq> NaN \<and> \<not> js_lt a b)"

text \<open>
  A numeric field of a fetched row is a number, \<^verbatim>\<open>null\<close>, or absent
  (\<^verbatim>\<open>undefined\<close>). \<open>ToNumber\<close> is the conversion the relational operators apply
  to such an operand, \<open>truthy_num\<close> the test of \<^verbatim>\<open>||\<close> and \<^verbatim>\<open>if\<close>.
\<close>

datatype numfield = Undefined | Null | Num jsnum

fun ToNumber :: "numfield \<Rightarrow> jsnum" where
  "ToNumber Undefined = NaN"
| "ToNumber Null = Fin 0"
| "ToNumber (Num x) = x"

fun truthy_num :: "numfield \<Rightarrow> bool" where
  "truthy_num Undefined = False"
| "truthy_num Null = False"
| "truthy_num (Num x) = (x \<noteq> Fin 0 \<and> x \<noteq> NaN)"

text \<open>\<^verbatim>\<open>v || 0\<close> on a numeric field.\<close>

definition or_zero :: "numfield \<Rightarrow> jsnum" where
  "or_zero v = (if truthy_num v then ToNumber v else Fin 0)"

text \<open>
  A string is a sequence of 16-bit code units. The order of \<^verbatim>\<open><\<close> on strings is
  the lexicographic order on code units, and a string field that is \<^verbatim>\<open>null\<close> or
  absent is \<open>None\<close>. \<open>lit\<close> is the string of an ASCII literal.
\<close>

type_synonym code_unit = "16 word"

type_synonym jsstring = "code_unit list"

definition lit :: "string \<Rightarrow> jsstring" where
  "lit s = map of_char s"

text \<open>
  \<^verbatim>\<open>String.prototype.toUpperCase\<close> and \<^verbatim>\<open>toLowerCase\<close> belong to the host, not to
  the component: they convert all of Unicode and may change the length of a string.
  The model takes the two functions as a parameter, and every property of the pipeline
  is proved for every such pair.
\<close>

record host =
  toUpperCase :: "jsstring \<Rightarrow> jsstring"
  toLowerCase :: "jsstring \<Rightarrow> jsstring"

definition startsWith :: "jsstring \<Rightarrow> jsstring \<Rightarrow> bool" where
  "startsWith s p = prefix p s"

definition endsWith :: "jsstring \<Rightarrow> jsstring \<Rightarrow> bool" where
  "endsWith s p = suffix p s"

text \<open>Truthiness of an optional string: defined and not empty.\<close>

fun truthy_str :: "jsstring option \<Rightarrow> bool" where
  "truthy_str None = False"
| "truthy_str (Some s) = (s \<noteq> [])"

datatype error = TypeError

section \<open>Data model\<close>

text \<open>
  The \<^verbatim>\<open>Student\<close> interface. Rows arrive untyped from the store, and the code
  itself guards \<^verbatim>\<open>name\<close>, \<^verbatim>\<open>admission_id\<close> and
  \<^verbatim>\<open>latest_percentage\<close> against missing values, so the fields are optional.
\<close>

record student =
  id_field :: jsstring
  admission_id :: "jsstring option"
  name :: "jsstring option"
  class_section :: "jsstring option"
  class_name :: "jsstring option"
  section_field :: "jsstring option"
  latest_percentage :: numfield

datatype sort_order = Asc | Desc

record sort_config =
  by_key :: jsstring
  order_dir :: sort_order

record filter_set =
  percentageMin :: "jsnum option"
  percentageMax :: "jsnum option"
  nameStartsWith :: "jsstring option"
  nameEndsWith :: "jsstring option"
  classSection :: "jsstring option"

text \<open>
  The state of the component, with the three collaborators it writes to: the
  notification sink, the console and the remote store (one entry per query issued).
\<close>

record component_state =
  students :: "student list"
  filteredStudents :: "student list"
  loading :: bool
  sortConfig :: sort_config
  filters :: filter_set
  toasts :: "string list"
  console :: "string list"
  queries :: "jsstring list list"

definition no_filters :: filter_set where
  "no_filters =
     \<lparr>percentageMin = None, percentageMax = None, nameStartsWith = None,
      nameEndsWith = None, classSection = None\<rparr>"

definition initial_state :: component_state where
  "initial_state =
     \<lparr>students = [], filteredStudents = [], loading = True,
      sortConfig = \<lparr>by_key = lit ''latest_percentage'', order_dir = Desc\<rparr>,
      filters = no_filters, toasts = [], console = [], queries = []\<rparr>"

section \<open>The loader\<close>

text \<open>
  What the awaited query gives back: the promise rejects, or it resolves to a pair of
  \<^verbatim>\<open>data\<close> and \<^verbatim>\<open>error\<close>, each possibly \<^verbatim>\<open>null\<close>. An error
  is an object (always truthy), here with its message.
\<close>

datatype query_error = QueryError jsstring

datatype fetch_outcome = Rejected | Resolved "student list option" "query_error option"

text \<open>The object spread of line 67: every field kept, the percentage coerced.\<close>

definition coerce_row :: "student \<Rightarrow> student" where
  "coerce_row s = s\<lparr>latest_percentage := Num (or_zero (latest_percentage s))\<rparr>"

text \<open>The \<^verbatim>\<open>catch\<close> block.\<close>

definition on_catch :: "component_state \<Rightarrow> component_state" where
  "on_catch st =
     st\<lparr>console := console st @ [''Error loading students:''],
        toasts := toasts st @ [''Failed to load students'']\<rparr>"

text \<open>The \<^verbatim>\<open>try\<close> block, after the query has been awaited.\<close>

fun on_response :: "fetch_outcome \<Rightarrow> component_state \<Rightarrow> component_state" where
  "on_response Rejected st = on_catch st"
| "on_response (Resolved d (Some e)) st = on_catch st"
| "on_response (Resolved (Some rows) None) st = st\<lparr>students := map coerce_row rows\<rparr>"
| "on_response (Resolved None None) st = st"

text \<open>
  The loader, run to completion on the outcome of its one query. The store selects the
  rows of the given class sections and orders them; the query is recorded, its answer is
  a parameter. An empty list of class sections returns before any query is issued.
\<close>

definition loadStudents ::
    "jsstring list \<Rightarrow> fetch_outcome \<Rightarrow> component_state \<Rightarrow> component_state" where
  "loadStudents teacherClassSections outcome st =
     (if length teacherClassSections = 0 then st\<lparr>loading := False\<rparr>
      else
        let st1 = st\<lparr>loading := True\<rparr>;
            st2 = st1\<lparr>queries := queries st1 @ [teacherClassSections]\<rparr>;
            st3 = on_response outcome st2
        in st3\<lparr>loading := False\<rparr>)"

section \<open>The filter and sort pipeline\<close>

text \<open>
  The two name filters call \<^verbatim>\<open>s.name.toUpperCase()\<close> without a guard: on a row
  whose name is missing the callback throws, and so does the whole pipeline.
\<close>

fun filter_name ::
    "host \<Rightarrow> (jsstring \<Rightarrow> bool) \<Rightarrow> student list \<Rightarrow> error + student list" where
  "filter_name h p [] = Inr []"
| "filter_name h p (s # ss) =
     (case name s of
        None \<Rightarrow> Inl TypeError
      | Some n \<Rightarrow>
          (case filter_name h p ss of
             Inl e \<Rightarrow> Inl e
           | Inr r \<Rightarrow> Inr (if p (toUpperCase h n) then s # r else r)))"

definition filterClassSection :: "filter_set \<Rightarrow> student list \<Rightarrow> student list" where
  "filterClassSection f xs =
     (if truthy_str (classSection f)
      then filter (\<lambda>s. class_section s = classSection f) xs else xs)"

definition filterPercentageMin :: "filter_set \<Rightarrow> student list \<Rightarrow> student list" where
  "filterPercentageMin f xs =
     (case percentageMin f of
        None \<Rightarrow> xs
      | Some m \<Rightarrow> filter (\<lambda>s. js_ge (ToNumber (latest_percentage s)) m) xs)"

definition filterPercentageMax :: "filter_set \<Rightarrow> student list \<Rightarrow> student list" where
  "filterPercentageMax f xs =
     (case percentageMax f of
        None \<Rightarrow> xs
      | Some m \<Rightarrow> filter (\<lambda>s. js_le (ToNumber (latest_percentage s)) m) xs)"

definition filterNameStartsWith ::
    "host \<Rightarrow> filter_set \<Rightarrow> student list \<Rightarrow> error + student list" where
  "filterNameStartsWith h f xs =
     (if truthy_str (nameStartsWith f)
      then filter_name h (\<lambda>n. startsWith n (the (nameStartsWith f))) xs else Inr xs)"

definition filterNameEndsWith ::
    "host \<Rightarrow> filter_set \<Rightarrow> student list \<Rightarrow> error + student list" where
  "filterNameEndsWith h f xs =
     (if truthy_str (nameEndsWith f)
      then filter_name h (\<lambda>n. endsWith n (the (nameEndsWith f))) xs else Inr xs)"

text \<open>Lines 128 to 130: the sign of the comparison, flipped by the direction.\<close>

definition compareResult :: "sort_order \<Rightarrow> bool \<Rightarrow> bool \<Rightarrow> int" where
  "compareResult ord lt gt =
     (if lt then (if ord = Asc then - 1 else 1)
      else if gt then (if ord = Asc then 1 else - 1)
      else 0)"

text \<open>\<^verbatim>\<open>v?.toLowerCase() || ''\<close> on a string field.\<close>

fun str_key :: "host \<Rightarrow> jsstring option \<Rightarrow> jsstring" where
  "str_key h None = []"
| "str_key h (Some s) = toLowerCase h s"

text \<open>
  The comparator handed to \<^verbatim>\<open>sort\<close>. Both keys of a comparison come from the same
  branch of the \<^verbatim>\<open>switch\<close>, so they are both strings or both numbers.
\<close>

definition compareFn :: "host \<Rightarrow> sort_config \<Rightarrow> student \<Rightarrow> student \<Rightarrow> int" where
  "compareFn h cfg a b =
     (if by_key cfg = lit ''name'' then
        (let aVal = str_key h (name a); bVal = str_key h (name b)
         in compareResult (order_dir cfg) (aVal < bVal) (aVal > bVal))
      else if by_key cfg = lit ''admission_id'' then
        (let aVal = str_key h (admission_id a); bVal = str_key h (admission_id b)
         in compareResult (order_dir cfg) (aVal < bVal) (aVal > bVal))
      else if by_key cfg = lit ''latest_percentage'' then
        (let aVal = or_zero (latest_percentage a); bVal = or_zero (latest_percentage b)
         in compareResult (order_dir cfg) (js_lt aVal bVal) (js_gt aVal bVal))
      else
        (let aVal = or_zero (latest_percentage a); bVal = or_zero (latest_percentage b)
         in compareResult (order_dir cfg) (js_lt aVal bVal) (js_gt aVal bVal)))"

text \<open>
  \<^verbatim>\<open>Array.prototype.sort\<close> is stable, and for a comparator that is a consistent
  total preorder its result is the one stable arrangement in that order. It is modelled
  by a stable insertion sort: an element goes in front of the first element it does not
  compare greater than.
\<close>

fun insert_by :: "('a \<Rightarrow> 'a \<Rightarrow> int) \<Rightarrow> 'a \<Rightarrow> 'a list \<Rightarrow> 'a list" where
  "insert_by cmp x [] = [x]"
| "insert_by cmp x (y # ys) =
     (if cmp x y \<le> 0 then x # y # ys else y # insert_by cmp x ys)"

fun sort_by :: "('a \<Rightarrow> 'a \<Rightarrow> int) \<Rightarrow> 'a list \<Rightarrow> 'a list" where
  "sort_by cmp [] = []"
| "sort_by cmp (x # xs) = insert_by cmp x (sort_by cmp xs)"

text \<open>
  The pipeline: the value handed to \<^verbatim>\<open>setFilteredStudents\<close>, or the error thrown
  before that call is reached.
\<close>

definition applyFiltersAndSort ::
    "host \<Rightarrow> student list \<Rightarrow> filter_set \<Rightarrow> sort_config \<Rightarrow> error + student list" where
  "applyFiltersAndSort h studs f cfg =
     (let filtered = studs;
          filtered = filterClassSection f filtered;
          filtered = filterPercentageMin f filtered;
          filtered = filterPercentageMax f filtered
      in case filterNameStartsWith h f filtered of
           Inl e \<Rightarrow> Inl e
         | Inr filtered \<Rightarrow>
             (case filterNameEndsWith h f filtered of
                Inl e \<Rightarrow> Inl e
              | Inr filtered \<Rightarrow> Inr (sort_by (compareFn h cfg) filtered)))"

text \<open>The effect of lines 46 to 48: the derived view is replaced unless the run throws.\<close>

definition applyFiltersAndSort_effect ::
    "host \<Rightarrow> component_state \<Rightarrow> error + component_state" where
  "applyFiltersAndSort_effect h st =
     (case applyFiltersAndSort h (students st) (filters st) (sortConfig st) of
        Inl e \<Rightarrow> Inl e
      | Inr v \<Rightarrow> Inr (st\<lparr>filteredStudents := v\<rparr>))"

section \<open>The tier mapper\<close>

definition getPerformanceColor :: "jsnum \<Rightarrow> string" where
  "getPerformanceColor percentage =
     (if js_ge percentage (Fin 90) then ''text-green-600 bg-green-50''
      else if js_ge percentage (Fin 75) then ''text-blue-600 bg-blue-50''
      else if js_ge percentage (Fin 60) then ''text-yellow-600 bg-yellow-50''
      else if js_ge percentage (Fin 45) then ''text-orange-600 bg-orange-50''
      else ''text-red-600 bg-red-50'')"

section \<open>Definitions used to state the properties\<close>

subsection \<open>The specification's comparator and tiers\<close>

text \<open>
  The comparator as the specification words it, ascending: names and admission
  identifiers compare lexicographically on the string lower-cased by the host, a
  missing value being the empty string; percentages compare numerically, a missing
  value being 0. An unrecognised key compares by percentage.
\<close>

definition spec_string :: "host \<Rightarrow> jsstring option \<Rightarrow> jsstring" where
  "spec_string h v = (case v of None \<Rightarrow> [] | Some s \<Rightarrow> toLowerCase h s)"

definition spec_number :: "numfield \<Rightarrow> jsnum" where
  "spec_number v = (case v of Num x \<Rightarrow> x | _ \<Rightarrow> Fin 0)"

definition three_way :: "bool \<Rightarrow> bool \<Rightarrow> int" where
  "three_way lt gt = (if lt then - 1 else if gt then 1 else 0)"

definition spec_compare :: "host \<Rightarrow> jsstring \<Rightarrow> student \<Rightarrow> student \<Rightarrow> int" where
  "spec_compare h key a b =
     (if key = lit ''name'' then
        three_way (spec_string h (name a) < spec_string h (name b))
                  (spec_string h (name b) < spec_string h (name a))
      else if key = lit ''admission_id'' then
        three_way (spec_string h (admission_id a) < spec_string h (admission_id b))
                  (spec_string h (admission_id b) < spec_string h (admission_id a))
      else
        three_way (js_lt (spec_number (latest_percentage a)) (spec_number (latest_percentage b)))
                  (js_lt (spec_number (latest_percentage b)) (spec_number (latest_percentage a))))"

text \<open>
  The five performance tiers of the specification, the style the component renders each
  with, and the tier of a percentage as the specification words it.
\<close>

datatype tier = Excellent | Good | Fair | Weak | Poor

fun tier_style :: "tier \<Rightarrow> string" where
  "tier_style Excellent = ''text-green-600 bg-green-50''"
| "tier_style Good = ''text-blue-600 bg-blue-50''"
| "tier_style Fair = ''text-yellow-600 bg-yellow-50''"
| "tier_style Weak = ''text-orange-600 bg-orange-50''"
| "tier_style Poor = ''text-red-600 bg-red-50''"

definition spec_tier :: "jsnum \<Rightarrow> tier" where
  "spec_tier p =
     (if js_ge p (Fin 90) then Excellent
      else if js_ge p (Fin 75) then Good
      else if js_ge p (Fin 60) then Fair
      else if js_ge p (Fin 45) then Weak
      else Poor)"

text \<open>A fetch fails when the promise rejects or the response carries an error.\<close>

fun fetch_failed :: "fetch_outcome \<Rightarrow> bool" where
  "fetch_failed Rejected = True"
| "fetch_failed (Resolved d e) = (e \<noteq> None)"

subsection \<open>Auxiliary predicates\<close>

text \<open>
  A comparator is consistent when \<open>\<le> 0\<close> is a total preorder; for such a comparator
  a stable sort has exactly one result.
\<close>

definition total_preorder :: "('a \<Rightarrow> 'a \<Rightarrow> int) \<Rightarrow> bool" where
  "total_preorder cmp =
     ((\<forall>a b. cmp a b \<le> 0 \<or> cmp b a \<le> 0) \<and>
      (\<forall>a b c. cmp a b \<le> 0 \<longrightarrow> cmp b c \<le> 0 \<longrightarrow> cmp a c \<le> 0))"

text \<open>The predicate of each filter on one record, true when the filter is not applied.\<close>

definition passes_class :: "filter_set \<Rightarrow> student \<Rightarrow> bool" where
  "passes_class f r =
     (case classSection f of
        None \<Rightarrow> True
      | Some c \<Rightarrow> c = [] \<or> class_section r = Some c)"

definition passes_min :: "filter_set \<Rightarrow> student \<Rightarrow> bool" where
  "passes_min f r =
     (case percentageMin f of
        None \<Rightarrow> True
      | Some m \<Rightarrow> js_ge (ToNumber (latest_percentage r)) m)"

definition passes_max :: "filter_set \<Rightarrow> student \<Rightarrow> bool" where
  "passes_max f r =
     (case percentageMax f of
        None \<Rightarrow> True
      | Some m \<Rightarrow> js_le (ToNumber (latest_percentage r)) m)"

definition passes_prefix :: "host \<Rightarrow> filter_set \<Rightarrow> student \<Rightarrow> bool" where
  "passes_prefix h f r =
     (case nameStartsWith f of
        None \<Rightarrow> True
      | Some p \<Rightarrow>
          p = [] \<or>
          (case name r of None \<Rightarrow> False | Some n \<Rightarrow> startsWith (toUpperCase h n) p))"

definition passes_suffix :: "host \<Rightarrow> filter_set \<Rightarrow> student \<Rightarrow> bool" where
  "passes_suffix h f r =
     (case nameEndsWith f of
        None \<Rightarrow> True
      | Some p \<Rightarrow>
          p = [] \<or>
          (case name r of None \<Rightarrow> False | Some n \<Rightarrow> endsWith (toUpperCase h n) p))"

text \<open>The three filters that cannot throw, in the order the pipeline applies them.\<close>

definition numeric_stage :: "filter_set \<Rightarrow> student list \<Rightarrow> student list" where
  "numeric_stage f xs = filterPercentageMax f (filterPercentageMin f (filterClassSection f xs))"

subsection \<open>Example data\<close>

text \<open>
  An instance of the host's case conversion, used where a property is evaluated on
  example data: it is the host's conversion on strings of Latin-1 characters (code units
  below 256), where upper-casing lengthens U+00DF to \<open>SS\<close> and leaves the Latin-1
  range at U+00B5 and U+00FF; other code units are left as they are.
\<close>

definition latin1_upper_unit :: "code_unit \<Rightarrow> jsstring" where
  "latin1_upper_unit c =
     (if 0x61 \<le> c \<and> c \<le> 0x7A then [c - 0x20]
      else if c = 0xB5 then [0x39C]
      else if c = 0xDF then [0x53, 0x53]
      else if 0xE0 \<le> c \<and> c \<le> 0xFE \<and> c \<noteq> 0xF7 then [c - 0x20]
      else if c = 0xFF then [0x178]
      else [c])"

definition latin1_lower_unit :: "code_unit \<Rightarrow> code_unit" where
  "latin1_lower_unit c =
     (if 0x41 \<le> c \<and> c \<le> 0x5A then c + 0x20
      else if 0xC0 \<le> c \<and> c \<le> 0xDE \<and> c \<noteq> 0xD7 then c + 0x20
      else c)"

definition latin1 :: host where
  "latin1 =
     \<lparr>toUpperCase = (\<lambda>s. concat (map latin1_upper_unit s)),
      toLowerCase = map latin1_lower_unit\<rparr>"

text \<open>
  The three students of the specification's scenario (Alice 92, bob 60, Cara 92), a row
  as the store may send it with name, admission identifier and percentage missing, a
  student with a percentage below zero, and four students whose names have letters
  outside ASCII: \<open>elan\<close> and \<open>strauss\<close> begin with U+00E9 and end with U+00DF,
  \<open>ea\<close> and \<open>ab\<close> begin with U+00C9 and U+00E5.
\<close>

definition alice :: student where
  "alice = \<lparr>id_field = lit ''s1'', admission_id = Some (lit ''ADM003''),
     name = Some (lit ''Alice''),
     class_section = Some (lit ''10-A''), class_name = Some (lit ''10''),
     section_field = Some (lit ''A''),
     latest_percentage = Num (Fin 92)\<rparr>"

definition bob :: student where
  "bob = \<lparr>id_field = lit ''s2'', admission_id = Some (lit ''adm001''),
     name = Some (lit ''bob''),
     class_section = Some (lit ''10-A''), class_name = Some (lit ''10''),
     section_field = Some (lit ''A''),
     latest_percentage = Num (Fin 60)\<rparr>"

definition cara :: student where
  "cara = \<lparr>id_field = lit ''s3'', admission_id = Some (lit ''ADM002''),
     name = Some (lit ''Cara''),
     class_section = Some (lit ''10-B''), class_name = Some (lit ''10''),
     section_field = Some (lit ''B''),
     latest_percentage = Num (Fin 92)\<rparr>"

definition dan :: student where
  "dan = \<lparr>id_field = lit ''s4'', admission_id = None, name = None,
     class_section = Some (lit ''10-B''), class_name = Some (lit ''10''),
     section_field = Some (lit ''B''),
     latest_percentage = Undefined\<rparr>"

definition eve :: student where
  "eve = \<lparr>id_field = lit ''s5'', admission_id = Some (lit ''ADM005''),
     name = Some (lit ''Eve''),
     class_section = Some (lit ''10-B''), class_name = Some (lit ''10''),
     section_field = Some (lit ''B''),
     latest_percentage = Num (Fin (- 5))\<rparr>"

definition elan :: student where
  "elan = \<lparr>id_field = lit ''s6'', admission_id = Some (lit ''ADM006''),
     name = Some (0xE9 # lit ''lan''),
     class_section = Some (lit ''10-A''), class_name = Some (lit ''10''),
     section_field = Some (lit ''A''), latest_percentage = Num (Fin 70)\<rparr>"

definition strauss :: student where
  "strauss = \<lparr>id_field = lit ''s7'', admission_id = Some (lit ''ADM007''),
     name = Some (lit ''Strau'' @ [0xDF]),
     class_section = Some (lit ''10-A''), class_name = Some (lit ''10''),
     section_field = Some (lit ''A''), latest_percentage = Num (Fin 81)\<rparr>"

definition ea :: student where
  "ea = \<lparr>id_field = lit ''s8'', admission_id = Some (lit ''ADM008''),
     name = Some (0xC9 # lit ''a''),
     class_section = Some (lit ''10-A''), class_name = Some (lit ''10''),
     section_field = Some (lit ''A''), latest_percentage = Num (Fin 55)\<rparr>"

definition ab :: student where
  "ab = \<lparr>id_field = lit ''s9'', admission_id = Some (lit ''ADM009''),
     name = Some (0xE5 # lit ''b''),
     class_section = Some (lit ''10-A''), class_name = Some (lit ''10''),
     section_field = Some (lit ''A''), latest_percentage = Num (Fin 66)\<rparr>"

definition desc_by_percentage :: sort_config where
  "desc_by_percentage = \<lparr>by_key = lit ''latest_percentage'', order_dir = Desc\<rparr>"

definition asc_by_name :: sort_config where
  "asc_by_name = \<lparr>by_key = lit ''name'', order_dir = Asc\<rparr>"

definition desc_by_rank :: sort_config where
  "desc_by_rank = \<lparr>by_key = lit ''rank'', order_dir = Desc\<rparr>"

definition all_filters :: filter_set where
  "all_filters =
     \<lparr>percentageMin = Some (Fin 90), percentageMax = Some (Fin 95),
      nameStartsWith = Some (lit ''AL''), nameEndsWith = Some (lit ''CE''),
      classSection = Some (lit ''10-A'')\<rparr>"

definition loaded_state :: component_state where
  "loaded_state =
     loadStudents [lit ''10-A''] (Resolved (Some [alice, bob]) None) initial_state"

section \<open>Facts about the model\<close>

subsection \<open>Numbers\<close>

lemma js_lt_NaN [simp]: "\<not> js_lt a NaN" "\<not> js_lt NaN a"
  by (cases a; simp)+

lemma js_lt_asym: "js_lt a b \<Longrightarrow> \<not> js_lt b a"
  by (cases a; cases b) auto

lemma js_lt_negtrans:
  "b \<noteq> NaN \<Longrightarrow> \<not> js_lt b a \<Longrightarrow> \<not> js_lt c b \<Longrightarrow> \<not> js_lt c a"
  by (cases a; cases b; cases c) auto

lemma or_zero_not_NaN: "or_zero v \<noteq> NaN"
  by (cases v) (auto simp: or_zero_def)

lemma or_zero_negtrans:
  "\<not> js_lt (or_zero b) (or_zero a) \<Longrightarrow> \<not> js_lt (or_zero c) (or_zero b)
   \<Longrightarrow> \<not> js_lt (or_zero c) (or_zero a)"
  using js_lt_negtrans or_zero_not_NaN by blast

subsection \<open>The sort\<close>

lemma mset_insert_by: "mset (insert_by cmp x xs) = add_mset x (mset xs)"
  by (induction xs) auto

lemma mset_sort_by: "mset (sort_by cmp xs) = mset xs"
  by (induction xs) (auto simp: mset_insert_by)

lemma set_insert_by: "set (insert_by cmp x xs) = insert x (set xs)"
  by (induction xs) auto

lemma set_sort_by: "set (sort_by cmp xs) = set xs"
  by (induction xs) (auto simp: set_insert_by)

lemma sorted_insert_by:
  assumes "total_preorder cmp" and "sorted_wrt (\<lambda>a b. cmp a b \<le> 0) xs"
  shows "sorted_wrt (\<lambda>a b. cmp a b \<le> 0) (insert_by cmp x xs)"
  using assms(2)
proof (induction xs)
  case Nil
  then show ?case by simp
next
  case (Cons y ys)
  show ?case
  proof (cases "cmp x y \<le> 0")
    case True
    have "\<forall>z\<in>set ys. cmp x z \<le> 0"
      using Cons.prems True assms(1) unfolding total_preorder_def
      by (metis sorted_wrt.simps(2))
    with True Cons.prems show ?thesis by simp
  next
    case False
    then have "cmp y x \<le> 0"
      using assms(1) unfolding total_preorder_def by blast
    with False Cons show ?thesis by (auto simp: set_insert_by)
  qed
qed

lemma sorted_sort_by:
  "total_preorder cmp \<Longrightarrow> sorted_wrt (\<lambda>a b. cmp a b \<le> 0) (sort_by cmp xs)"
  by (induction xs) (auto simp: sorted_insert_by)

subsection \<open>The comparator\<close>

lemma key_literals_distinct [simp]:
  "lit ''latest_percentage'' \<noteq> lit ''name''"
  "lit ''latest_percentage'' \<noteq> lit ''admission_id''"
  "lit ''admission_id'' \<noteq> lit ''name''"
  "lit ''name'' \<noteq> lit ''latest_percentage''"
  "lit ''admission_id'' \<noteq> lit ''latest_percentage''"
  "lit ''name'' \<noteq> lit ''admission_id''"
  by (simp_all add: lit_def)

lemma compareResult_le:
  "compareResult ord lt gt \<le> 0 \<longleftrightarrow> (if ord = Asc then lt \<or> \<not> gt else \<not> lt)"
  by (auto simp: compareResult_def)

lemma compareFn_le:
  "compareFn h cfg a b \<le> 0 \<longleftrightarrow>
     (if by_key cfg = lit ''name'' then
        (if order_dir cfg = Asc then str_key h (name a) \<le> str_key h (name b)
         else str_key h (name b) \<le> str_key h (name a))
      else if by_key cfg = lit ''admission_id'' then
        (if order_dir cfg = Asc then str_key h (admission_id a) \<le> str_key h (admission_id b)
         else str_key h (admission_id b) \<le> str_key h (admission_id a))
      else
        (if order_dir cfg = Asc
         then \<not> js_lt (or_zero (latest_percentage b)) (or_zero (latest_percentage a))
         else \<not> js_lt (or_zero (latest_percentage a)) (or_zero (latest_percentage b))))"
  using js_lt_asym[of "or_zero (latest_percentage a)" "or_zero (latest_percentage b)"]
  by (auto simp: compareFn_def compareResult_le js_gt_def Let_def)

lemma compareFn_total: "compareFn h cfg a b \<le> 0 \<or> compareFn h cfg b a \<le> 0"
proof (cases "order_dir cfg")
  case Asc
  then show ?thesis
    unfolding compareFn_le using js_lt_asym by (simp add: linear)
next
  case Desc
  then show ?thesis
    unfolding compareFn_le using js_lt_asym by (simp add: linear)
qed

lemma compareFn_trans:
  assumes "compareFn h cfg a b \<le> 0" and "compareFn h cfg b c \<le> 0"
  shows "compareFn h cfg a c \<le> 0"
proof (cases "order_dir cfg")
  case Asc
  with assms show ?thesis
    unfolding compareFn_le
    by (simp split: if_splits) (use or_zero_negtrans in blast)
next
  case Desc
  with assms show ?thesis
    unfolding compareFn_le
    by (simp split: if_splits) (use or_zero_negtrans in blast)
qed

text \<open>The comparator is consistent, so the stable sort above is what the host sort returns.\<close>

lemma total_preorder_compareFn: "total_preorder (compareFn h cfg)"
  unfolding total_preorder_def using compareFn_total compareFn_trans by blast

lemma compareFn_fallback:
  assumes "by_key cfg \<notin> {lit ''name'', lit ''admission_id'', lit ''latest_percentage''}"
  shows "compareFn h cfg = compareFn h (cfg\<lparr>by_key := lit ''latest_percentage''\<rparr>)"
  using assms by (auto simp: compareFn_def fun_eq_iff)

lemma str_key_spec: "str_key h v = spec_string h v"
  by (cases v) (simp_all add: spec_string_def)

lemma or_zero_spec: "spec_number v \<noteq> NaN \<Longrightarrow> or_zero v = spec_number v"
  by (cases v) (auto simp: or_zero_def spec_number_def)

lemma spec_lt_imp_code_lt:
  assumes "js_lt (spec_number x) (spec_number y)"
  shows "js_lt (or_zero x) (or_zero y)"
proof -
  have "spec_number x \<noteq> NaN" and "spec_number y \<noteq> NaN"
    using assms by (metis js_lt_NaN(2)) (metis assms js_lt_NaN(1))
  with assms show ?thesis by (simp add: or_zero_spec)
qed

lemma compareFn_le_spec:
  assumes "compareFn h cfg a b \<le> 0"
  shows "(order_dir cfg = Asc \<longrightarrow> spec_compare h (by_key cfg) a b \<le> 0) \<and>
         (order_dir cfg = Desc \<longrightarrow> spec_compare h (by_key cfg) a b \<ge> 0)"
proof (cases "order_dir cfg")
  case Asc
  with assms show ?thesis
    unfolding compareFn_le spec_compare_def three_way_def str_key_spec
    using spec_lt_imp_code_lt[of "latest_percentage b" "latest_percentage a"]
    by (auto split: if_splits)
next
  case Desc
  with assms show ?thesis
    unfolding compareFn_le spec_compare_def three_way_def str_key_spec
    using spec_lt_imp_code_lt[of "latest_percentage a" "latest_percentage b"]
    by (auto split: if_splits)
qed

subsection \<open>The filters\<close>

lemma filter_name_Inr:
  "filter_name h p xs = Inr ys \<Longrightarrow>
     (\<forall>s\<in>set xs. name s \<noteq> None) \<and>
     ys = filter (\<lambda>s. case name s of None \<Rightarrow> False | Some n \<Rightarrow> p (toUpperCase h n)) xs"
  by (induction xs arbitrary: ys) (auto split: option.splits sum.splits)

lemma filter_name_total:
  "\<forall>s\<in>set xs. name s \<noteq> None \<Longrightarrow> \<exists>ys. filter_name h p xs = Inr ys"
  by (induction xs) (auto split: option.splits sum.splits)

lemma numeric_stage_eq:
  "numeric_stage f xs =
     filter (\<lambda>r. passes_class f r \<and> passes_min f r \<and> passes_max f r) xs"
proof -
  have c: "filterClassSection f xs = filter (passes_class f) xs" for xs
    by (cases "classSection f")
       (auto simp: filterClassSection_def passes_class_def intro: filter_cong)
  have m: "filterPercentageMin f xs = filter (passes_min f) xs" for xs
    by (auto simp: filterPercentageMin_def passes_min_def split: option.splits
          intro: filter_cong)
  have x: "filterPercentageMax f xs = filter (passes_max f) xs" for xs
    by (auto simp: filterPercentageMax_def passes_max_def split: option.splits
          intro: filter_cong)
  show ?thesis
    unfolding numeric_stage_def c m x by (simp add: conj_commute conj_left_commute)
qed

lemma filterNameStartsWith_Inr:
  "filterNameStartsWith h f xs = Inr ys \<Longrightarrow> ys = filter (passes_prefix h f) xs"
  by (cases "nameStartsWith f")
     (auto simp: filterNameStartsWith_def passes_prefix_def dest!: filter_name_Inr
           split: if_splits intro!: filter_cong)

lemma filterNameEndsWith_Inr:
  "filterNameEndsWith h f xs = Inr ys \<Longrightarrow> ys = filter (passes_suffix h f) xs"
  by (cases "nameEndsWith f")
     (auto simp: filterNameEndsWith_def passes_suffix_def dest!: filter_name_Inr
           split: if_splits intro!: filter_cong)

lemma passes_simps:
  "passes_class (f\<lparr>nameStartsWith := x\<rparr>) = passes_class f"
  "passes_min (f\<lparr>nameStartsWith := x\<rparr>) = passes_min f"
  "passes_max (f\<lparr>nameStartsWith := x\<rparr>) = passes_max f"
  "passes_suffix h (f\<lparr>nameStartsWith := x\<rparr>) = passes_suffix h f"
  "passes_class (f\<lparr>nameEndsWith := x\<rparr>) = passes_class f"
  "passes_min (f\<lparr>nameEndsWith := x\<rparr>) = passes_min f"
  "passes_max (f\<lparr>nameEndsWith := x\<rparr>) = passes_max f"
  "passes_prefix h (f\<lparr>nameEndsWith := x\<rparr>) = passes_prefix h f"
  by (simp_all add: passes_class_def passes_min_def passes_max_def passes_suffix_def
        passes_prefix_def fun_eq_iff)

lemma numeric_stage_names [simp]:
  "numeric_stage (f\<lparr>nameStartsWith := x\<rparr>) xs = numeric_stage f xs"
  "numeric_stage (f\<lparr>nameEndsWith := x\<rparr>) xs = numeric_stage f xs"
  by (simp_all add: numeric_stage_eq passes_simps)

subsection \<open>The pipeline\<close>

lemma applyFiltersAndSort_stages:
  "applyFiltersAndSort h studs f cfg =
     (case filterNameStartsWith h f (numeric_stage f studs) of
        Inl e \<Rightarrow> Inl e
      | Inr xs \<Rightarrow>
          (case filterNameEndsWith h f xs of
             Inl e \<Rightarrow> Inl e
           | Inr ys \<Rightarrow> Inr (sort_by (compareFn h cfg) ys)))"
  by (simp add: applyFiltersAndSort_def numeric_stage_def Let_def)

lemma same_stages:
  assumes "filterClassSection f = filterClassSection g"
    and "filterPercentageMin f = filterPercentageMin g"
    and "filterPercentageMax f = filterPercentageMax g"
    and "filterNameStartsWith h f = filterNameStartsWith h g"
    and "filterNameEndsWith h f = filterNameEndsWith h g"
  shows "applyFiltersAndSort h studs f cfg = applyFiltersAndSort h studs g cfg"
  unfolding applyFiltersAndSort_def assms ..

lemma applyFiltersAndSort_Inr:
  assumes "applyFiltersAndSort h studs f cfg = Inr v"
  shows "v = sort_by (compareFn h cfg)
               (filter (passes_suffix h f) (filter (passes_prefix h f) (numeric_stage f studs)))"
proof -
  obtain xs where xs: "filterNameStartsWith h f (numeric_stage f studs) = Inr xs"
    using assms unfolding applyFiltersAndSort_stages by (auto split: sum.splits)
  obtain ys where ys: "filterNameEndsWith h f xs = Inr ys"
    using assms xs unfolding applyFiltersAndSort_stages by (auto split: sum.splits)
  have "v = sort_by (compareFn h cfg) ys"
    using assms xs ys unfolding applyFiltersAndSort_stages by simp
  with filterNameStartsWith_Inr[OF xs] filterNameEndsWith_Inr[OF ys] show ?thesis by simp
qed

lemma view_member:
  assumes "applyFiltersAndSort h studs f cfg = Inr v"
  shows "r \<in> set v \<longleftrightarrow>
           r \<in> set studs \<and> passes_class f r \<and> passes_min f r \<and> passes_max f r \<and>
           passes_prefix h f r \<and> passes_suffix h f r"
  unfolding applyFiltersAndSort_Inr[OF assms] set_sort_by numeric_stage_eq by auto

text \<open>The pipeline throws only on a record without a name.\<close>

lemma applyFiltersAndSort_returns:
  assumes "\<forall>s\<in>set studs. name s \<noteq> None"
  shows "\<exists>v. applyFiltersAndSort h studs f cfg = Inr v"
proof -
  have n: "\<forall>s\<in>set (numeric_stage f studs). name s \<noteq> None"
    using assms by (simp add: numeric_stage_eq)
  obtain xs where xs: "filterNameStartsWith h f (numeric_stage f studs) = Inr xs"
    using filter_name_total[OF n] unfolding filterNameStartsWith_def by (metis (full_types))
  have "\<forall>s\<in>set xs. name s \<noteq> None"
    using filterNameStartsWith_Inr[OF xs] n by simp
  then obtain ys where ys: "filterNameEndsWith h f xs = Inr ys"
    using filter_name_total unfolding filterNameEndsWith_def by (metis (full_types))
  show ?thesis by (simp add: applyFiltersAndSort_stages xs ys)
qed

lemma view_sorted:
  assumes "applyFiltersAndSort h studs f cfg = Inr v"
  shows "sorted_wrt (\<lambda>a b. compareFn h cfg a b \<le> 0) v"
  unfolding applyFiltersAndSort_Inr[OF assms]
  by (rule sorted_sort_by[OF total_preorder_compareFn])

lemma without_prefix:
  assumes "nameStartsWith f = Some p" and "p \<noteq> []"
    and "applyFiltersAndSort h studs f cfg = Inr v"
  shows "\<exists>w. applyFiltersAndSort h studs (f\<lparr>nameStartsWith := None\<rparr>) cfg = Inr w \<and>
           (\<forall>r. r \<in> set v \<longleftrightarrow>
                r \<in> set w \<and> (\<exists>n. name r = Some n \<and> startsWith (toUpperCase h n) p))"
proof -
  let ?f = "f\<lparr>nameStartsWith := None\<rparr>"
  obtain xs where xs: "filterNameStartsWith h f (numeric_stage f studs) = Inr xs"
    using assms(3) unfolding applyFiltersAndSort_stages by (auto split: sum.splits)
  have names: "\<forall>s\<in>set (numeric_stage f studs). name s \<noteq> None"
    using xs assms(1,2) by (auto simp: filterNameStartsWith_def dest!: filter_name_Inr)
  have "\<exists>zs. filterNameEndsWith h ?f (numeric_stage f studs) = Inr zs"
    using filter_name_total[OF names] unfolding filterNameEndsWith_def by (metis (full_types))
  then obtain w where w: "applyFiltersAndSort h studs ?f cfg = Inr w"
    by (auto simp: applyFiltersAndSort_stages filterNameStartsWith_def)
  have "r \<in> set v \<longleftrightarrow> r \<in> set w \<and> (\<exists>n. name r = Some n \<and> startsWith (toUpperCase h n) p)" for r
    unfolding view_member[OF assms(3)] view_member[OF w] passes_simps
    using assms(1,2) by (auto simp: passes_prefix_def split: option.splits)
  with w show ?thesis by blast
qed

lemma without_suffix:
  assumes "nameEndsWith f = Some p" and "p \<noteq> []"
    and "applyFiltersAndSort h studs f cfg = Inr v"
  shows "\<exists>w. applyFiltersAndSort h studs (f\<lparr>nameEndsWith := None\<rparr>) cfg = Inr w \<and>
           (\<forall>r. r \<in> set v \<longleftrightarrow>
                r \<in> set w \<and> (\<exists>n. name r = Some n \<and> endsWith (toUpperCase h n) p))"
proof -
  let ?f = "f\<lparr>nameEndsWith := None\<rparr>"
  obtain xs where xs: "filterNameStartsWith h f (numeric_stage f studs) = Inr xs"
    using assms(3) unfolding applyFiltersAndSort_stages by (auto split: sum.splits)
  have "filterNameStartsWith h ?f zs = filterNameStartsWith h f zs" for zs
    by (simp add: filterNameStartsWith_def)
  with xs have xs': "filterNameStartsWith h ?f (numeric_stage f studs) = Inr xs" by simp
  obtain w where w: "applyFiltersAndSort h studs ?f cfg = Inr w"
    using xs' by (auto simp: applyFiltersAndSort_stages filterNameEndsWith_def)
  have "r \<in> set v \<longleftrightarrow> r \<in> set w \<and> (\<exists>n. name r = Some n \<and> endsWith (toUpperCase h n) p)" for r
    unfolding view_member[OF assms(3)] view_member[OF w] passes_simps
    using assms(1,2) by (auto simp: passes_suffix_def split: option.splits)
  with w show ?thesis by blast
qed

lemma zero_after_positive:
  assumes v: "applyFiltersAndSort h studs f \<lparr>by_key = lit ''latest_percentage'', order_dir = Desc\<rparr>
                = Inr v"
    and i: "i < length v" and j: "j < length v"
    and z: "latest_percentage (v ! i) = Num (Fin 0)"
    and p: "js_gt (ToNumber (latest_percentage (v ! j))) (Fin 0)"
  shows "j < i"
proof (rule ccontr)
  assume "\<not> j < i"
  moreover have "i \<noteq> j" using z p by (auto simp: js_gt_def)
  ultimately have lt: "i < j" by simp
  let ?cfg = "\<lparr>by_key = lit ''latest_percentage'', order_dir = Desc\<rparr>"
  have "sorted_wrt (\<lambda>a b. compareFn h ?cfg a b \<le> 0) v" using v by (rule view_sorted)
  then have "compareFn h ?cfg (v ! i) (v ! j) \<le> 0"
    using lt j by (simp add: sorted_wrt_iff_nth_less)
  then have n: "\<not> js_lt (or_zero (latest_percentage (v ! i))) (or_zero (latest_percentage (v ! j)))"
    by (simp add: compareFn_le)
  have "or_zero (latest_percentage (v ! j)) = ToNumber (latest_percentage (v ! j))"
    using p by (cases "latest_percentage (v ! j)") (auto simp: or_zero_def js_gt_def)
  with n z p show False by (simp add: or_zero_def js_gt_def)
qed

subsection \<open>The loader\<close>

lemma on_response_failed:
  "fetch_failed outcome \<Longrightarrow> on_response outcome st = on_catch st"
  by (cases "(outcome, st)" rule: on_response.cases) auto

lemma load_success:
  "teacherClassSections \<noteq> [] \<Longrightarrow>
   students (loadStudents teacherClassSections (Resolved (Some rows) None) st)
     = map coerce_row rows"
  by (simp add: loadStudents_def Let_def)

lemma coerce_row_falsy:
  "latest_percentage r = Undefined \<or> latest_percentage r = Null \<or>
   latest_percentage r = Num (Fin 0) \<or> latest_percentage r = Num NaN
   \<Longrightarrow> latest_percentage (coerce_row r) = Num (Fin 0)"
  by (auto simp: coerce_row_def or_zero_def)

subsection \<open>The name filters on a row without a name\<close>

text \<open>A name filter that is applied throws as soon as one row it reaches has no name.\<close>

lemma filter_name_Inl:
  "\<exists>s\<in>set xs. name s = None \<Longrightarrow> filter_name h p xs = Inl TypeError"
proof (induction xs)
  case Nil
  then show ?case by simp
next
  case (Cons x xs)
  show ?case
  proof (cases "name x")
    case None
    then show ?thesis by simp
  next
    case (Some n)
    with Cons.prems have "\<exists>s\<in>set xs. name s = None" by auto
    with Cons.IH Some show ?thesis by simp
  qed
qed

lemma name_filter_throws:
  assumes "truthy_str (nameStartsWith f) \<or> truthy_str (nameEndsWith f)"
    and "r \<in> set (numeric_stage f studs)" and "name r = None"
  shows "applyFiltersAndSort h studs f cfg = Inl TypeError"
proof (cases "truthy_str (nameStartsWith f)")
  case True
  then have "filterNameStartsWith h f (numeric_stage f studs) = Inl TypeError"
    using assms(2,3) by (auto simp: filterNameStartsWith_def intro!: filter_name_Inl)
  then show ?thesis by (simp add: applyFiltersAndSort_stages)
next
  case False
  with assms(1) have e: "truthy_str (nameEndsWith f)" by simp
  have "filterNameStartsWith h f (numeric_stage f studs) = Inr (numeric_stage f studs)"
    using False by (simp add: filterNameStartsWith_def)
  moreover have "filterNameEndsWith h f (numeric_stage f studs) = Inl TypeError"
    using e assms(2,3) by (auto simp: filterNameEndsWith_def intro!: filter_name_Inl)
  ultimately show ?thesis by (simp add: applyFiltersAndSort_stages)
qed

section \<open>The claims\<close>

text \<open>
  C1. When the fetch fails (the promise rejects, or the response carries an error), the
  loader, called with a list of class sections that is not empty, appends exactly one
  notification to the sink, leaves the loaded records, the derived view and the inputs
  of the pipeline as they were, and clears the loading flag. One query was issued.
\<close>

theorem fetch_failure_keeps_state:
  assumes "teacherClassSections \<noteq> []" and "fetch_failed outcome"
  shows "toasts (loadStudents teacherClassSections outcome st)
           = toasts st @ [''Failed to load students''] \<and>
         students (loadStudents teacherClassSections outcome st) = students st \<and>
         filteredStudents (loadStudents teacherClassSections outcome st) = filteredStudents st \<and>
         filters (loadStudents teacherClassSections outcome st) = filters st \<and>
         sortConfig (loadStudents teacherClassSections outcome st) = sortConfig st \<and>
         loading (loadStudents teacherClassSections outcome st) = False \<and>
         queries (loadStudents teacherClassSections outcome st)
           = queries st @ [teacherClassSections]"
  using assms by (simp add: loadStudents_def on_response_failed on_catch_def Let_def)

theorem fetch_failure_keeps_state_witness:
  "[lit ''10-A''] \<noteq> [] \<and> fetch_failed (Resolved None (Some (QueryError (lit ''timeout'')))) \<and>
   fetch_failed Rejected \<and>
   students loaded_state = [alice, bob] \<and>
   toasts (loadStudents [lit ''10-A''] (Resolved None (Some (QueryError (lit ''timeout'')))) loaded_state)
     = [''Failed to load students''] \<and>
   students (loadStudents [lit ''10-A''] (Resolved None (Some (QueryError (lit ''timeout'')))) loaded_state)
     = [alice, bob] \<and>
   loading (loadStudents [lit ''10-A''] (Resolved None (Some (QueryError (lit ''timeout'')))) loaded_state)
     = False \<and>
   toasts (loadStudents [lit ''10-A''] Rejected loaded_state) = [''Failed to load students''] \<and>
   students (loadStudents [lit ''10-A''] Rejected loaded_state) = [alice, bob]"
proof -
  have n: "[lit ''10-A''] \<noteq> []" by simp
  have f1: "fetch_failed (Resolved None (Some (QueryError (lit ''timeout''))))" by simp
  have f2: "fetch_failed Rejected" by simp
  have s: "students loaded_state = [alice, bob]" "toasts loaded_state = []"
    by (simp_all add: loaded_state_def loadStudents_def initial_state_def Let_def coerce_row_def
          alice_def bob_def or_zero_def)
  show ?thesis
    using fetch_failure_keeps_state[OF n f1, of loaded_state]
          fetch_failure_keeps_state[OF n f2, of loaded_state] s
    by simp
qed

text \<open>
  C2. With every filter field unset the pipeline returns a view, for every loaded list
  and every sort configuration (and whatever the case conversion of the host), and the view is a permutation of the loaded list: each
  record occurs in it as often as it was loaded.
\<close>

theorem derived_view_is_permutation:
  "\<exists>v. applyFiltersAndSort h studs no_filters cfg = Inr v \<and> mset v = mset studs"
  by (simp add: applyFiltersAndSort_def no_filters_def filterClassSection_def
        filterPercentageMin_def filterPercentageMax_def filterNameStartsWith_def
        filterNameEndsWith_def mset_sort_by)

text \<open>
  C3. Every view the pipeline returns is ordered by the active key and direction: for
  two positions \<open>i < j\<close> of the view (consecutive ones among them) the comparator of
  the code gives \<open>\<le> 0\<close>, and the comparator of the specification gives \<open>\<le> 0\<close> when
  ascending and \<open>\<ge> 0\<close> when descending. The strings compared are those the host's
  \<^verbatim>\<open>toLowerCase\<close> returns, whatever that function is. The pipeline returns a view
  whenever every loaded record has a name.
\<close>

theorem derived_view_is_ordered:
  "((\<forall>s\<in>set studs. name s \<noteq> None) \<longrightarrow> (\<exists>v. applyFiltersAndSort h studs f cfg = Inr v)) \<and>
   (\<forall>v i j. applyFiltersAndSort h studs f cfg = Inr v \<and> i < j \<and> j < length v \<longrightarrow>
      compareFn h cfg (v ! i) (v ! j) \<le> 0 \<and>
      (order_dir cfg = Asc \<longrightarrow> spec_compare h (by_key cfg) (v ! i) (v ! j) \<le> 0) \<and>
      (order_dir cfg = Desc \<longrightarrow> spec_compare h (by_key cfg) (v ! i) (v ! j) \<ge> 0))"
proof (intro conjI allI impI)
  assume "\<forall>s\<in>set studs. name s \<noteq> None"
  then show "\<exists>v. applyFiltersAndSort h studs f cfg = Inr v"
    by (rule applyFiltersAndSort_returns)
next
  fix v i j
  assume a: "applyFiltersAndSort h studs f cfg = Inr v \<and> i < j \<and> j < length v"
  then have "sorted_wrt (\<lambda>a b. compareFn h cfg a b \<le> 0) v"
    by (blast intro: view_sorted)
  with a show c: "compareFn h cfg (v ! i) (v ! j) \<le> 0"
    by (simp add: sorted_wrt_iff_nth_less)
  { assume "order_dir cfg = Asc"
    with compareFn_le_spec[OF c] show "spec_compare h (by_key cfg) (v ! i) (v ! j) \<le> 0"
      by simp }
  { assume "order_dir cfg = Desc"
    with compareFn_le_spec[OF c] show "spec_compare h (by_key cfg) (v ! i) (v ! j) \<ge> 0"
      by simp }
qed

text \<open>
  The theorem at the scenario, by percentage descending and by name ascending, and at
  two names outside ASCII: U+00C9 \<open>a\<close> lower-cases to U+00E9 \<open>a\<close>, which is greater
  than U+00E5 \<open>b\<close>, so \<open>ab\<close> comes first.
\<close>

theorem derived_view_is_ordered_witness:
  "applyFiltersAndSort latin1 [alice, bob, cara] no_filters desc_by_percentage
     = Inr [alice, cara, bob] \<and>
   0 \<le> spec_compare latin1 (lit ''latest_percentage'') alice cara \<and>
   0 \<le> spec_compare latin1 (lit ''latest_percentage'') cara bob \<and>
   applyFiltersAndSort latin1 [alice, bob, cara] no_filters asc_by_name
     = Inr [alice, bob, cara] \<and>
   spec_compare latin1 (lit ''name'') alice bob \<le> 0 \<and>
   spec_compare latin1 (lit ''name'') bob cara \<le> 0 \<and>
   applyFiltersAndSort latin1 [ea, ab] no_filters asc_by_name = Inr [ab, ea] \<and>
   spec_compare latin1 (lit ''name'') ab ea \<le> 0 \<and>
   spec_compare latin1 (lit ''name'') ab ea = - 1"
proof -
  let ?s = "[alice, bob, cara]"
  have names: "\<forall>s\<in>set ?s. name s \<noteq> None"
    by (simp add: alice_def bob_def cara_def)
  have "\<exists>v. applyFiltersAndSort latin1 ?s no_filters desc_by_percentage = Inr v"
    using derived_view_is_ordered[where h = latin1 and studs = ?s and f = no_filters
        and cfg = desc_by_percentage] names by blast
  moreover have "applyFiltersAndSort latin1 ?s no_filters desc_by_percentage
      = Inr [alice, cara, bob]"
    by code_simp
  ultimately have d: "applyFiltersAndSort latin1 ?s no_filters desc_by_percentage
      = Inr [alice, cara, bob]"
    by simp
  have a: "applyFiltersAndSort latin1 ?s no_filters asc_by_name = Inr [alice, bob, cara]"
    by code_simp
  have u: "applyFiltersAndSort latin1 [ea, ab] no_filters asc_by_name = Inr [ab, ea]"
    by code_simp
  have kd: "by_key desc_by_percentage = lit ''latest_percentage''"
    "order_dir desc_by_percentage = Desc"
    by (simp_all add: desc_by_percentage_def)
  have ka: "by_key asc_by_name = lit ''name''" "order_dir asc_by_name = Asc"
    by (simp_all add: asc_by_name_def)
  note od = derived_view_is_ordered[where h = latin1 and studs = ?s and f = no_filters
      and cfg = desc_by_percentage, THEN conjunct2, rule_format]
  note oa = derived_view_is_ordered[where h = latin1 and studs = ?s and f = no_filters
      and cfg = asc_by_name, THEN conjunct2, rule_format]
  note ou = derived_view_is_ordered[where h = latin1 and studs = "[ea, ab]"
      and f = no_filters and cfg = asc_by_name, THEN conjunct2, rule_format]
  have "0 \<le> spec_compare latin1 (lit ''latest_percentage'') alice cara"
    using od[of "[alice, cara, bob]" 0 "Suc 0"] d kd by simp
  moreover have "0 \<le> spec_compare latin1 (lit ''latest_percentage'') cara bob"
    using od[of "[alice, cara, bob]" "Suc 0" "Suc (Suc 0)"] d kd by simp
  moreover have "spec_compare latin1 (lit ''name'') alice bob \<le> 0"
    using oa[of "[alice, bob, cara]" 0 "Suc 0"] a ka by simp
  moreover have "spec_compare latin1 (lit ''name'') bob cara \<le> 0"
    using oa[of "[alice, bob, cara]" "Suc 0" "Suc (Suc 0)"] a ka by simp
  moreover have "spec_compare latin1 (lit ''name'') ab ea \<le> 0"
    using ou[of "[ab, ea]" 0 "Suc 0"] u ka by simp
  moreover have "spec_compare latin1 (lit ''name'') ab ea = - 1"
    by code_simp
  ultimately show ?thesis using d a u by simp
qed

text \<open>
  C4, as the code has it. Filtering is conjunctive over the filters that are applied: a
  record of a returned view is a loaded record that satisfies the predicate of each of
  them. A percentage bound is applied whenever it is set: percentage \<open>\<ge> L\<close> for a
  lower bound \<open>L\<close>, percentage \<open>\<le> U\<close> for an upper bound \<open>U\<close>, both inclusive.
  A class-section, name-prefix or name-suffix filter is applied when it is set to a
  string that is not empty; names are upper-cased by the host. The pipeline returns a
  view whenever every loaded record has a name.
\<close>

theorem filtering_is_conjunctive:
  "((\<forall>s\<in>set studs. name s \<noteq> None) \<longrightarrow> (\<exists>v. applyFiltersAndSort h studs f cfg = Inr v)) \<and>
   (\<forall>v r. applyFiltersAndSort h studs f cfg = Inr v \<and> r \<in> set v \<longrightarrow>
      r \<in> set studs \<and>
      (\<forall>c. classSection f = Some c \<and> c \<noteq> [] \<longrightarrow> class_section r = Some c) \<and>
      (\<forall>L. percentageMin f = Some L \<longrightarrow> js_ge (ToNumber (latest_percentage r)) L) \<and>
      (\<forall>U. percentageMax f = Some U \<longrightarrow> js_le (ToNumber (latest_percentage r)) U) \<and>
      (\<forall>p. nameStartsWith f = Some p \<and> p \<noteq> [] \<longrightarrow>
         (\<exists>n. name r = Some n \<and> startsWith (toUpperCase h n) p)) \<and>
      (\<forall>p. nameEndsWith f = Some p \<and> p \<noteq> [] \<longrightarrow>
         (\<exists>n. name r = Some n \<and> endsWith (toUpperCase h n) p)))"
proof (intro conjI allI impI)
  assume "\<forall>s\<in>set studs. name s \<noteq> None"
  then show "\<exists>v. applyFiltersAndSort h studs f cfg = Inr v"
    by (rule applyFiltersAndSort_returns)
next
  fix v r
  assume a: "applyFiltersAndSort h studs f cfg = Inr v \<and> r \<in> set v"
  then have m: "r \<in> set studs \<and> passes_class f r \<and> passes_min f r \<and> passes_max f r \<and>
      passes_prefix h f r \<and> passes_suffix h f r"
    using view_member by blast
  show "r \<in> set studs" using m by simp
  show "class_section r = Some c" if "classSection f = Some c \<and> c \<noteq> []" for c
    using m that by (simp add: passes_class_def)
  show "js_ge (ToNumber (latest_percentage r)) L" if "percentageMin f = Some L" for L
    using m that by (simp add: passes_min_def)
  show "js_le (ToNumber (latest_percentage r)) U" if "percentageMax f = Some U" for U
    using m that by (simp add: passes_max_def)
  show "\<exists>n. name r = Some n \<and> startsWith (toUpperCase h n) p"
    if "nameStartsWith f = Some p \<and> p \<noteq> []" for p
    using m that by (auto simp: passes_prefix_def split: option.splits)
  show "\<exists>n. name r = Some n \<and> endsWith (toUpperCase h n) p"
    if "nameEndsWith f = Some p \<and> p \<noteq> []" for p
    using m that by (auto simp: passes_suffix_def split: option.splits)
qed

text \<open>
  The theorem at the scenario with all five filters set, and at a name outside ASCII:
  the prefix U+00C9 keeps \<open>elan\<close>, whose name begins with U+00E9.
\<close>

theorem filtering_is_conjunctive_witness:
  "applyFiltersAndSort latin1 [alice, bob, cara] all_filters desc_by_percentage = Inr [alice] \<and>
   class_section alice = Some (lit ''10-A'') \<and>
   js_ge (ToNumber (latest_percentage alice)) (Fin 90) \<and>
   js_le (ToNumber (latest_percentage alice)) (Fin 95) \<and>
   (\<exists>n. name alice = Some n \<and> startsWith (toUpperCase latin1 n) (lit ''AL'')) \<and>
   (\<exists>n. name alice = Some n \<and> endsWith (toUpperCase latin1 n) (lit ''CE'')) \<and>
   applyFiltersAndSort latin1 [alice, elan] (no_filters\<lparr>nameStartsWith := Some [0xC9]\<rparr>)
     desc_by_percentage = Inr [elan] \<and>
   (\<exists>n. name elan = Some n \<and> startsWith (toUpperCase latin1 n) [0xC9])"
proof -
  let ?s = "[alice, bob, cara]"
  let ?f = "no_filters\<lparr>nameStartsWith := Some [0xC9]\<rparr>"
  have names: "\<forall>s\<in>set ?s. name s \<noteq> None"
    by (simp add: alice_def bob_def cara_def)
  have "\<exists>v. applyFiltersAndSort latin1 ?s all_filters desc_by_percentage = Inr v"
    using filtering_is_conjunctive[where h = latin1 and studs = ?s and f = all_filters
        and cfg = desc_by_percentage] names by blast
  moreover have "applyFiltersAndSort latin1 ?s all_filters desc_by_percentage = Inr [alice]"
    by code_simp
  ultimately have e: "applyFiltersAndSort latin1 ?s all_filters desc_by_percentage = Inr [alice]"
    by simp
  have g: "applyFiltersAndSort latin1 [alice, elan] ?f desc_by_percentage = Inr [elan]"
    by code_simp
  have f: "classSection all_filters = Some (lit ''10-A'')"
    "percentageMin all_filters = Some (Fin 90)"
    "percentageMax all_filters = Some (Fin 95)"
    "nameStartsWith all_filters = Some (lit ''AL'')"
    "nameEndsWith all_filters = Some (lit ''CE'')"
    by (simp_all add: all_filters_def)
  have l: "lit ''10-A'' \<noteq> []" "lit ''AL'' \<noteq> []" "lit ''CE'' \<noteq> []"
    by (simp_all add: lit_def)
  note c = filtering_is_conjunctive[where h = latin1 and studs = ?s and f = all_filters
      and cfg = desc_by_percentage, THEN conjunct2, rule_format, of "[alice]" alice]
  note k = filtering_is_conjunctive[where h = latin1 and studs = "[alice, elan]" and f = ?f
      and cfg = desc_by_percentage, THEN conjunct2, rule_format, of "[elan]" elan]
  have m: "applyFiltersAndSort latin1 ?s all_filters desc_by_percentage = Inr [alice] \<and>
      alice \<in> set [alice]"
    using e by simp
  have n: "applyFiltersAndSort latin1 [alice, elan] ?f desc_by_percentage = Inr [elan] \<and>
      elan \<in> set [elan]"
    using g by simp
  have "\<exists>n. name elan = Some n \<and> startsWith (toUpperCase latin1 n) [0xC9]"
    using k[OF n] by simp
  then show ?thesis using c[OF m] f l e g by simp
qed

text \<open>
  C4, as stated, fails: a class-section filter set to the empty string is a specified
  filter, yet both students stay in the view, and the class section of neither is the
  empty string.
\<close>

theorem empty_class_filter_counterexample:
  "classSection (no_filters\<lparr>classSection := Some []\<rparr>) = Some [] \<and>
   applyFiltersAndSort latin1 [alice, cara] (no_filters\<lparr>classSection := Some []\<rparr>)
     desc_by_percentage = Inr [alice, cara] \<and>
   class_section alice \<noteq> Some [] \<and> class_section cara \<noteq> Some []"
proof -
  have "applyFiltersAndSort latin1 [alice, cara] (no_filters\<lparr>classSection := Some []\<rparr>)
     desc_by_percentage = Inr [alice, cara]"
    by code_simp
  then show ?thesis by (simp add: alice_def cara_def lit_def)
qed

text \<open>
  C5. With a name-prefix filter set, a record is to survive exactly when its name,
  upper-cased, starts with the prefix, whatever the case of the name; likewise for the
  name-suffix filter with ends-with. The code does so on rows that have a name: alone
  and in the scenario of the three students, Alice survives the prefix \<open>AL\<close> and
  nobody else does; the prefix U+00C9 keeps \<open>elan\<close> and the suffix \<open>SS\<close> keeps
  \<open>strauss\<close>, as the host's upper-casing makes them match. But the two name filters
  read \<^verbatim>\<open>s.name.toUpperCase()\<close> with no guard: next to a row whose name is missing
  the same filter throws, for every host, no view is produced, and Alice does not
  survive. The sort of the same function guards the same field with
  \<^verbatim>\<open>a.name?.toLowerCase() || ''\<close> and orders the same two rows by name.
\<close>

theorem name_filter_throws_on_missing_name:
  "name alice = Some (lit ''Alice'') \<and>
   startsWith (toUpperCase latin1 (lit ''Alice'')) (lit ''AL'') \<and>
   applyFiltersAndSort latin1 [alice] (no_filters\<lparr>nameStartsWith := Some (lit ''AL'')\<rparr>) cfg
     = Inr [alice] \<and>
   applyFiltersAndSort latin1 [alice, bob, cara]
     (no_filters\<lparr>nameStartsWith := Some (lit ''AL'')\<rparr>) cfg = Inr [alice] \<and>
   applyFiltersAndSort latin1 [alice, elan] (no_filters\<lparr>nameStartsWith := Some [0xC9]\<rparr>) cfg
     = Inr [elan] \<and>
   applyFiltersAndSort latin1 [alice, strauss] (no_filters\<lparr>nameEndsWith := Some (lit ''SS'')\<rparr>)
     cfg = Inr [strauss] \<and>
   name dan = None \<and>
   applyFiltersAndSort h [alice, dan] (no_filters\<lparr>nameStartsWith := Some (lit ''AL'')\<rparr>) cfg
     = Inl TypeError \<and>
   applyFiltersAndSort h [alice, dan] (no_filters\<lparr>nameEndsWith := Some (lit ''CE'')\<rparr>) cfg
     = Inl TypeError \<and>
   applyFiltersAndSort latin1 [alice, dan] no_filters asc_by_name = Inr [dan, alice]"
proof (intro conjI)
  show "name alice = Some (lit ''Alice'')" by (simp add: alice_def)
  show "startsWith (toUpperCase latin1 (lit ''Alice'')) (lit ''AL'')" by code_simp
  show "applyFiltersAndSort latin1 [alice] (no_filters\<lparr>nameStartsWith := Some (lit ''AL'')\<rparr>)
      cfg = Inr [alice]"
    by code_simp
  show "applyFiltersAndSort latin1 [alice, bob, cara]
     (no_filters\<lparr>nameStartsWith := Some (lit ''AL'')\<rparr>) cfg = Inr [alice]"
    by code_simp
  show "applyFiltersAndSort latin1 [alice, elan] (no_filters\<lparr>nameStartsWith := Some [0xC9]\<rparr>)
      cfg = Inr [elan]"
    by code_simp
  show "applyFiltersAndSort latin1 [alice, strauss]
      (no_filters\<lparr>nameEndsWith := Some (lit ''SS'')\<rparr>) cfg = Inr [strauss]"
    by code_simp
  show "name dan = None" by (simp add: dan_def)
  have l: "lit ''AL'' \<noteq> []" "lit ''CE'' \<noteq> []" by (simp_all add: lit_def)
  have n: "name dan = None" by (simp add: dan_def)
  have p: "dan \<in> set (numeric_stage (no_filters\<lparr>nameStartsWith := Some (lit ''AL'')\<rparr>)
      [alice, dan])"
    by (simp add: numeric_stage_eq passes_class_def passes_min_def passes_max_def
          no_filters_def)
  have s: "dan \<in> set (numeric_stage (no_filters\<lparr>nameEndsWith := Some (lit ''CE'')\<rparr>)
      [alice, dan])"
    by (simp add: numeric_stage_eq passes_class_def passes_min_def passes_max_def
          no_filters_def)
  show "applyFiltersAndSort h [alice, dan] (no_filters\<lparr>nameStartsWith := Some (lit ''AL'')\<rparr>)
      cfg = Inl TypeError"
    by (rule name_filter_throws[OF _ p n]) (simp add: l)
  show "applyFiltersAndSort h [alice, dan] (no_filters\<lparr>nameEndsWith := Some (lit ''CE'')\<rparr>)
      cfg = Inl TypeError"
    by (rule name_filter_throws[OF _ s n]) (simp add: l)
  show "applyFiltersAndSort latin1 [alice, dan] no_filters asc_by_name = Inr [dan, alice]"
    by code_simp
qed

text \<open>
  C6, as the code has it. Called with an empty list of class sections, the loader only
  clears the loading flag: it issues no query and no notification, and it leaves the
  loaded records and the derived view as they were. They are empty afterwards when
  nothing had been loaded before, as on the first load.
\<close>

theorem empty_list_skips_fetch:
  "loadStudents [] outcome st = st\<lparr>loading := False\<rparr> \<and>
   queries (loadStudents [] outcome st) = queries st \<and>
   toasts (loadStudents [] outcome st) = toasts st \<and>
   loading (loadStudents [] outcome st) = False \<and>
   students (loadStudents [] outcome st) = students st \<and>
   filteredStudents (loadStudents [] outcome st) = filteredStudents st \<and>
   students (loadStudents [] outcome initial_state) = [] \<and>
   filteredStudents (loadStudents [] outcome initial_state) = [] \<and>
   applyFiltersAndSort h (students (loadStudents [] outcome initial_state)) f cfg = Inr []"
  by (simp add: loadStudents_def initial_state_def applyFiltersAndSort_def
        filterClassSection_def filterPercentageMin_def filterPercentageMax_def
        filterNameStartsWith_def filterNameEndsWith_def split: option.splits)

text \<open>
  C6, as stated, fails: after a load of two records and the run of the pipeline that
  follows it, a call with the empty list leaves both records in the record set and in
  the derived view.
\<close>

theorem empty_list_keeps_records_counterexample:
  "applyFiltersAndSort_effect latin1 loaded_state
     = Inr (loaded_state\<lparr>filteredStudents := [alice, bob]\<rparr>) \<and>
   students (loadStudents [] Rejected (loaded_state\<lparr>filteredStudents := [alice, bob]\<rparr>))
     \<noteq> [] \<and>
   filteredStudents (loadStudents [] Rejected (loaded_state\<lparr>filteredStudents := [alice, bob]\<rparr>))
     \<noteq> []"
proof -
  have c: "coerce_row alice = alice" "coerce_row bob = bob"
    by (simp_all add: coerce_row_def alice_def bob_def or_zero_def)
  have s: "students loaded_state = [alice, bob]"
    "filters loaded_state = no_filters" "sortConfig loaded_state = desc_by_percentage"
    by (simp_all add: loaded_state_def loadStudents_def initial_state_def Let_def c
          desc_by_percentage_def)
  have v: "applyFiltersAndSort latin1 [alice, bob] no_filters desc_by_percentage = Inr [alice, bob]"
    by code_simp
  show ?thesis
    by (simp add: applyFiltersAndSort_effect_def s v loadStudents_def)
qed

text \<open>
  C7. After a successful load every fetched row whose percentage is absent, null, zero
  or not a number is stored with percentage exactly 0; and in every view sorted by
  percentage, descending, a record stored with percentage 0 stands after every record
  whose percentage is greater than 0.
\<close>

theorem missing_percentage_is_zero_and_sorts_last:
  assumes "teacherClassSections \<noteq> []"
  shows "length (students (loadStudents teacherClassSections (Resolved (Some rows) None) st))
           = length rows \<and>
    (\<forall>k. k < length rows \<and>
        (latest_percentage (rows ! k) = Undefined \<or> latest_percentage (rows ! k) = Null \<or>
         latest_percentage (rows ! k) = Num (Fin 0) \<or> latest_percentage (rows ! k) = Num NaN)
      \<longrightarrow> latest_percentage
            (students (loadStudents teacherClassSections (Resolved (Some rows) None) st) ! k)
          = Num (Fin 0)) \<and>
    (\<forall>f v i j.
        applyFiltersAndSort h
          (students (loadStudents teacherClassSections (Resolved (Some rows) None) st)) f
          \<lparr>by_key = lit ''latest_percentage'', order_dir = Desc\<rparr> = Inr v \<and>
        i < length v \<and> j < length v \<and>
        latest_percentage (v ! i) = Num (Fin 0) \<and>
        js_gt (ToNumber (latest_percentage (v ! j))) (Fin 0)
      \<longrightarrow> j < i)"
proof (intro conjI allI impI)
  show "length (students (loadStudents teacherClassSections (Resolved (Some rows) None) st))
          = length rows"
    using assms by (simp add: load_success)
next
  fix k
  assume "k < length rows \<and>
        (latest_percentage (rows ! k) = Undefined \<or> latest_percentage (rows ! k) = Null \<or>
         latest_percentage (rows ! k) = Num (Fin 0) \<or> latest_percentage (rows ! k) = Num NaN)"
  then show "latest_percentage
            (students (loadStudents teacherClassSections (Resolved (Some rows) None) st) ! k)
          = Num (Fin 0)"
    using assms by (simp add: load_success coerce_row_falsy)
next
  fix f v i j
  assume "applyFiltersAndSort h
          (students (loadStudents teacherClassSections (Resolved (Some rows) None) st)) f
          \<lparr>by_key = lit ''latest_percentage'', order_dir = Desc\<rparr> = Inr v \<and>
        i < length v \<and> j < length v \<and>
        latest_percentage (v ! i) = Num (Fin 0) \<and>
        js_gt (ToNumber (latest_percentage (v ! j))) (Fin 0)"
  then show "j < i" using zero_after_positive by blast
qed

theorem missing_percentage_is_zero_and_sorts_last_witness:
  "[lit ''10-B''] \<noteq> [] \<and> latest_percentage dan = Undefined \<and>
   students (loadStudents [lit ''10-B''] (Resolved (Some [dan, cara]) None) initial_state)
     = [coerce_row dan, cara] \<and>
   latest_percentage (coerce_row dan) = Num (Fin 0) \<and>
   applyFiltersAndSort latin1
     (students (loadStudents [lit ''10-B''] (Resolved (Some [dan, cara]) None) initial_state))
     no_filters \<lparr>by_key = lit ''latest_percentage'', order_dir = Desc\<rparr>
     = Inr [cara, coerce_row dan] \<and>
   js_gt (ToNumber (latest_percentage cara)) (Fin 0) \<and>
   (0::nat) < Suc 0"
proof -
  let ?st = "loadStudents [lit ''10-B''] (Resolved (Some [dan, cara]) None) initial_state"
  let ?cfg = "\<lparr>by_key = lit ''latest_percentage'', order_dir = Desc\<rparr>"
  have n: "[lit ''10-B''] \<noteq> []" by simp
  note t = missing_percentage_is_zero_and_sorts_last[OF n, of "[dan, cara]" initial_state latin1]
  have u: "latest_percentage dan = Undefined" by (simp add: dan_def)
  have c: "coerce_row cara = cara" by (simp add: coerce_row_def cara_def or_zero_def)
  have s: "students ?st = [coerce_row dan, cara]"
    by (simp add: loadStudents_def Let_def c)
  have z: "latest_percentage (students ?st ! 0) = Num (Fin 0)"
    using t[THEN conjunct2, THEN conjunct1, rule_format, of 0] u by simp
  then have z': "latest_percentage (coerce_row dan) = Num (Fin 0)" by (simp add: s)
  have e: "applyFiltersAndSort latin1 (students ?st) no_filters ?cfg = Inr [cara, coerce_row dan]"
    unfolding s by code_simp
  have g: "js_gt (ToNumber (latest_percentage cara)) (Fin 0)"
    by (simp add: cara_def js_gt_def)
  have "(0::nat) < Suc 0"
    using t[THEN conjunct2, THEN conjunct2, rule_format, of no_filters "[cara, coerce_row dan]"
        "Suc 0" 0] e z' g by simp
  with n u s z' e g show ?thesis by simp
qed

text \<open>
  C8. With a sort key that is none of \<open>name\<close>, \<open>admission_id\<close> and
  \<open>latest_percentage\<close>, the pipeline gives the same result as with the key
  \<open>latest_percentage\<close> and the same direction, for every loaded list and filter set.
\<close>

theorem unknown_sort_key_is_percentage:
  assumes "by_key cfg \<notin> {lit ''name'', lit ''admission_id'', lit ''latest_percentage''}"
  shows "applyFiltersAndSort h studs f cfg =
         applyFiltersAndSort h studs f (cfg\<lparr>by_key := lit ''latest_percentage''\<rparr>)"
  unfolding applyFiltersAndSort_def compareFn_fallback[OF assms] ..

theorem unknown_sort_key_is_percentage_witness:
  "by_key desc_by_rank \<notin> {lit ''name'', lit ''admission_id'', lit ''latest_percentage''} \<and>
   applyFiltersAndSort latin1 [bob, cara, alice] no_filters desc_by_rank = Inr [cara, alice, bob] \<and>
   applyFiltersAndSort latin1 [bob, cara, alice] no_filters
     (desc_by_rank\<lparr>by_key := lit ''latest_percentage''\<rparr>) = Inr [cara, alice, bob]"
proof -
  have k: "by_key desc_by_rank \<notin> {lit ''name'', lit ''admission_id'', lit ''latest_percentage''}"
    by (simp add: desc_by_rank_def lit_def)
  have e: "applyFiltersAndSort latin1 [bob, cara, alice] no_filters desc_by_rank = Inr [cara, alice, bob]"
    by code_simp
  show ?thesis
    using k e unknown_sort_key_is_percentage[OF k, of latin1 "[bob, cara, alice]" no_filters] by simp
qed

text \<open>
  C9. The tier mapper is total and returns the style of the tier the specification
  names: excellent from 90, good from 75, fair from 60, weak from 45, poor below, each
  boundary belonging to the upper tier. A percentage that is not a number is poor.
\<close>

theorem performance_tier_boundaries:
  "getPerformanceColor p = tier_style (spec_tier p) \<and>
   (getPerformanceColor (Fin x) = ''text-green-600 bg-green-50'' \<longleftrightarrow> 90 \<le> x) \<and>
   (getPerformanceColor (Fin x) = ''text-blue-600 bg-blue-50'' \<longleftrightarrow> 75 \<le> x \<and> x < 90) \<and>
   (getPerformanceColor (Fin x) = ''text-yellow-600 bg-yellow-50'' \<longleftrightarrow> 60 \<le> x \<and> x < 75) \<and>
   (getPerformanceColor (Fin x) = ''text-orange-600 bg-orange-50'' \<longleftrightarrow> 45 \<le> x \<and> x < 60) \<and>
   (getPerformanceColor (Fin x) = ''text-red-600 bg-red-50'' \<longleftrightarrow> x < 45) \<and>
   spec_tier (Fin 90) = Excellent \<and> spec_tier (Fin 75) = Good \<and> spec_tier (Fin 60) = Fair \<and>
   spec_tier (Fin 45) = Weak \<and>
   spec_tier PosInf = Excellent \<and> spec_tier NegInf = Poor \<and> spec_tier NaN = Poor"
  by (simp add: getPerformanceColor_def spec_tier_def js_ge_def)

text \<open>
  C10. A name-prefix, name-suffix or class-section filter set to the empty string gives
  the same result as that filter left unset, while a percentage bound of 0 is applied:
  with the lower bound 0 every record of the view has percentage \<open>\<ge> 0\<close>, with the upper
  bound 0 every record has percentage \<open>\<le> 0\<close>, and of a student with 92 and one with
  \<open>- 5\<close> each bound drops one.
\<close>

theorem presence_tests:
  "applyFiltersAndSort h studs (f\<lparr>nameStartsWith := Some []\<rparr>) cfg
     = applyFiltersAndSort h studs (f\<lparr>nameStartsWith := None\<rparr>) cfg \<and>
   applyFiltersAndSort h studs (f\<lparr>nameEndsWith := Some []\<rparr>) cfg
     = applyFiltersAndSort h studs (f\<lparr>nameEndsWith := None\<rparr>) cfg \<and>
   applyFiltersAndSort h studs (f\<lparr>classSection := Some []\<rparr>) cfg
     = applyFiltersAndSort h studs (f\<lparr>classSection := None\<rparr>) cfg \<and>
   (\<forall>v r. applyFiltersAndSort h studs (f\<lparr>percentageMin := Some (Fin 0)\<rparr>) cfg = Inr v \<and> r \<in> set v
      \<longrightarrow> js_ge (ToNumber (latest_percentage r)) (Fin 0)) \<and>
   (\<forall>v r. applyFiltersAndSort h studs (f\<lparr>percentageMax := Some (Fin 0)\<rparr>) cfg = Inr v \<and> r \<in> set v
      \<longrightarrow> js_le (ToNumber (latest_percentage r)) (Fin 0)) \<and>
   applyFiltersAndSort h [alice, eve] (no_filters\<lparr>percentageMin := Some (Fin 0)\<rparr>) cfg
     = Inr [alice] \<and>
   applyFiltersAndSort h [alice, eve] (no_filters\<lparr>percentageMax := Some (Fin 0)\<rparr>) cfg
     = Inr [eve]"
proof (intro conjI allI impI)
  show "applyFiltersAndSort h studs (f\<lparr>nameStartsWith := Some []\<rparr>) cfg
     = applyFiltersAndSort h studs (f\<lparr>nameStartsWith := None\<rparr>) cfg"
    by (rule same_stages)
       (simp_all add: filterClassSection_def filterPercentageMin_def filterPercentageMax_def
          filterNameStartsWith_def filterNameEndsWith_def fun_eq_iff)
  show "applyFiltersAndSort h studs (f\<lparr>nameEndsWith := Some []\<rparr>) cfg
     = applyFiltersAndSort h studs (f\<lparr>nameEndsWith := None\<rparr>) cfg"
    by (rule same_stages)
       (simp_all add: filterClassSection_def filterPercentageMin_def filterPercentageMax_def
          filterNameStartsWith_def filterNameEndsWith_def fun_eq_iff)
  show "applyFiltersAndSort h studs (f\<lparr>classSection := Some []\<rparr>) cfg
     = applyFiltersAndSort h studs (f\<lparr>classSection := None\<rparr>) cfg"
    by (rule same_stages)
       (simp_all add: filterClassSection_def filterPercentageMin_def filterPercentageMax_def
          filterNameStartsWith_def filterNameEndsWith_def fun_eq_iff)
  show "applyFiltersAndSort h [alice, eve] (no_filters\<lparr>percentageMin := Some (Fin 0)\<rparr>) cfg
     = Inr [alice]"
    by code_simp
  show "applyFiltersAndSort h [alice, eve] (no_filters\<lparr>percentageMax := Some (Fin 0)\<rparr>) cfg
     = Inr [eve]"
    by code_simp
next
  fix v r
  assume "applyFiltersAndSort h studs (f\<lparr>percentageMin := Some (Fin 0)\<rparr>) cfg = Inr v \<and> r \<in> set v"
  then have "passes_min (f\<lparr>percentageMin := Some (Fin 0)\<rparr>) r" using view_member by blast
  then show "js_ge (ToNumber (latest_percentage r)) (Fin 0)" by (simp add: passes_min_def)
next
  fix v r
  assume "applyFiltersAndSort h studs (f\<lparr>percentageMax := Some (Fin 0)\<rparr>) cfg = Inr v \<and> r \<in> set v"
  then have "passes_max (f\<lparr>percentageMax := Some (Fin 0)\<rparr>) r" using view_member by blast
  then show "js_le (ToNumber (latest_percentage r)) (Fin 0)" by (simp add: passes_max_def)
qed

theorem presence_tests_witness:
  "applyFiltersAndSort latin1 [alice, eve] (no_filters\<lparr>percentageMin := Some (Fin 0)\<rparr>) asc_by_name
      = Inr [alice] \<and>
   js_ge (ToNumber (latest_percentage alice)) (Fin 0) \<and>
   applyFiltersAndSort latin1 [alice, eve] (no_filters\<lparr>percentageMax := Some (Fin 0)\<rparr>) asc_by_name
      = Inr [eve] \<and>
   js_le (ToNumber (latest_percentage eve)) (Fin 0) \<and>
   applyFiltersAndSort latin1 [alice, eve] no_filters asc_by_name = Inr [alice, eve] \<and>
   applyFiltersAndSort latin1 [alice, eve] (no_filters\<lparr>nameStartsWith := Some []\<rparr>) asc_by_name
      = Inr [alice, eve]"
proof -
  note t = presence_tests[of latin1 "[alice, eve]" no_filters asc_by_name]
  have a: "applyFiltersAndSort latin1 [alice, eve] (no_filters\<lparr>percentageMin := Some (Fin 0)\<rparr>)
             asc_by_name = Inr [alice]"
    using t by blast
  have b: "applyFiltersAndSort latin1 [alice, eve] (no_filters\<lparr>percentageMax := Some (Fin 0)\<rparr>)
             asc_by_name = Inr [eve]"
    using t by blast
  have n: "applyFiltersAndSort latin1 [alice, eve] no_filters asc_by_name = Inr [alice, eve]"
    by code_simp
  have n': "no_filters\<lparr>nameStartsWith := None\<rparr> = no_filters"
    by (simp add: no_filters_def)
  have e: "applyFiltersAndSort latin1 [alice, eve] (no_filters\<lparr>nameStartsWith := Some []\<rparr>) asc_by_name
             = Inr [alice, eve]"
    using t n n' by simp
  have "js_ge (ToNumber (latest_percentage alice)) (Fin 0)"
    using t[THEN conjunct2, THEN conjunct2, THEN conjunct2, THEN conjunct1, rule_format,
        of "[alice]" alice] a by simp
  moreover have "js_le (ToNumber (latest_percentage eve)) (Fin 0)"
    using t[THEN conjunct2, THEN conjunct2, THEN conjunct2, THEN conjunct2, THEN conjunct1,
        rule_format, of "[eve]" eve] b by simp
  ultimately show ?thesis using a b n e by simp
qed

end
